theory Spec2Isabelle
  imports Main "HOL-Library.Finite_Map"
begin

section \<open>The proof-service registry of \<open>externals/services.go\<close>\<close>

subsection \<open>Values that cross the boundary of the file\<close>

text \<open>
  A Go \<open>error\<close> value is opaque to the registry: it is only compared with \<open>nil\<close> and
  handed to the debug log. A call that returns \<open>(v, err)\<close> is a value of
  \<open>error + 'a\<close>, with \<open>Inl\<close> for \<open>err != nil\<close>.
\<close>

type_synonym error = string

text \<open>
  Modelled from the spec: the interface \<open>libkb.ServiceType\<close> is declared outside the
  file. The spec's service descriptor exposes the string keys it is addressable by, a
  flag \<open>IsDevelOnly\<close>, and behaviour that is opaque to the registry. The registry calls
  the two methods \<open>AllStringKeys()\<close> and \<open>IsDevelOnly()\<close>; everything else a
  descriptor is or does is the field \<open>impl\<close>, which the registry never inspects. Two
  descriptors with the same keys and the same flag can therefore still be told apart.
\<close>

record 'b ServiceType =
  AllStringKeys :: "string list"
  IsDevelOnly :: bool
  impl :: 'b

text \<open>
  \<open>map[string]libkb.ServiceType\<close>: a finite map. Indexing a missing key yields the
  zero value \<open>nil\<close>, here \<open>None\<close>.
\<close>

type_synonym 'b Collection = "(string, 'b ServiceType) fmap"

text \<open>
  Modelled from the spec: \<open>keybase1.MerkleStoreEntry\<close> is declared outside the file.
  The spec's store entry is an opaque payload with metadata, passed through unmodified;
  the registry reads its field \<open>Entry\<close>, the payload, and nothing else.
\<close>

record MerkleStoreEntry =
  Entry :: string

text \<open>
  Modelled from the spec: \<open>libkb.RunMode\<close> and its constants are declared outside the
  file. The spec knows a run mode that is the development mode or is not; the file
  compares the current mode with \<open>DevelRunMode\<close>. \<open>OtherRunMode\<close> with a name stands
  for every other mode.
\<close>

datatype RunMode = DevelRunMode | OtherRunMode string

text \<open>The three \<open>CDebugf\<close> calls of the file, with their arguments.\<close>

datatype LogMsg =
  UnableToLoad error
| UnableToParse error
| UnableToValidate string error

text \<open>
  What the file uses and does not define. Of the package: the variable
  \<open>useDevelProofCheckers\<close>, the builtin list \<open>getStaticProofServices()\<close>, the
  validating constructor \<open>NewGenericSocialProofConfig\<close> and the descriptor constructor
  \<open>NewGenericSocialProofServiceType\<close>. Of the Go library: \<open>strings.ToLower\<close>, and
  \<open>json.Unmarshal\<close> into \<open>proofServicesT\<close> followed by the read of its field
  \<open>Services\<close>. Of \<open>keybase1.ParamProofServiceConfig\<close> (the type \<open>'c\<close>): the field
  \<open>DisplayName\<close>. The type \<open>'g\<close> is \<open>*GenericSocialProofConfig\<close>.
  All of them are parameters of the model; none is given a behaviour here.
\<close>

record ('c, 'g, 'b) Package =
  useDevelProofCheckers :: bool
  getStaticProofServices :: "'b ServiceType list"
  ToLower :: "string \<Rightarrow> string"
  Unmarshal :: "string \<Rightarrow> error + 'c list"
  DisplayName :: "'c \<Rightarrow> string"
  NewGenericSocialProofConfig :: "'c \<Rightarrow> error + 'g"
  NewGenericSocialProofServiceType :: "'g \<Rightarrow> 'b ServiceType"

text \<open>
  \<open>p.G()\<close> at the time of one call: the three environment readings of the refresh
  policy, and the parameter-proof store. \<open>GetLatestEntry g n\<close> is what the store
  answers to the call made after \<open>n\<close> earlier calls.
\<close>

record GlobalContext =
  Admin :: bool
  GetRunMode :: RunMode
  RunningInCI :: bool
  GetLatestEntry :: "nat \<Rightarrow> error + MerkleStoreEntry"

text \<open>
  The effects the registry has outside itself: the number of \<open>GetLatestEntry\<close> calls
  made so far and the debug log.
\<close>

record World =
  fetches :: nat
  debug_log :: "LogMsg list"

subsection \<open>Registration\<close>

text \<open>
  The inner loop of \<open>register\<close>: \<open>for _, k := range st.AllStringKeys() { p.collection[k] = st }\<close>.
  The key is stored as the descriptor gives it.
\<close>

fun store_keys :: "'b ServiceType \<Rightarrow> string list \<Rightarrow> 'b Collection \<Rightarrow> 'b Collection" where
  "store_keys st [] c = c"
| "store_keys st (k # ks) c = store_keys st ks (fmupd k st c)"

text \<open>
  The outer loop of \<open>register\<close>, with its \<open>continue\<close>. The two \<open>register\<close> methods of
  the file have the same body; \<open>devel\<close> is \<open>useDevelProofCheckers\<close>.
\<close>

fun register_loop :: "bool \<Rightarrow> 'b ServiceType list \<Rightarrow> 'b Collection \<Rightarrow> 'b Collection" where
  "register_loop devel [] c = c"
| "register_loop devel (st # services) c =
     (if \<not> devel \<and> IsDevelOnly st then register_loop devel services c
      else register_loop devel services (store_keys st (AllStringKeys st) c))"

subsection \<open>\<open>staticProofServices\<close>\<close>

record 'b staticProofServices =
  static_collection :: "'b Collection"

definition staticProofServices_register ::
  "('c, 'g, 'b) Package \<Rightarrow> 'b ServiceType list \<Rightarrow> 'b staticProofServices \<Rightarrow> 'b staticProofServices" where
  "staticProofServices_register X services p =
     p\<lparr>static_collection := register_loop (useDevelProofCheckers X) services (static_collection p)\<rparr>"

definition newStaticProofServices :: "('c, 'g, 'b) Package \<Rightarrow> 'b staticProofServices" where
  "newStaticProofServices X =
     staticProofServices_register X (getStaticProofServices X) \<lparr>static_collection = fmempty\<rparr>"

definition staticProofServices_GetServiceType ::
  "('c, 'g, 'b) Package \<Rightarrow> 'b staticProofServices \<Rightarrow> string \<Rightarrow> 'b ServiceType option" where
  "staticProofServices_GetServiceType X p s = fmlookup (static_collection p) (ToLower X s)"


subsection \<open>\<open>proofServices\<close>\<close>

text \<open>
  The mutex is not modelled: every method holds it from entry to return, so the methods
  run one after the other. The embedded \<open>Contextified\<close> is the argument \<open>g\<close> of the
  methods that call \<open>p.G()\<close>.
\<close>

record 'b proofServices =
  collection :: "'b Collection"
  loaded :: bool

definition proofServices_register ::
  "('c, 'g, 'b) Package \<Rightarrow> 'b ServiceType list \<Rightarrow> 'b proofServices \<Rightarrow> 'b proofServices" where
  "proofServices_register X services p =
     p\<lparr>collection := register_loop (useDevelProofCheckers X) services (collection p)\<rparr>"

definition newProofServices :: "('c, 'g, 'b) Package \<Rightarrow> 'b proofServices" where
  "newProofServices X =
     proofServices_register X (getStaticProofServices X) \<lparr>collection = fmempty, loaded = False\<rparr>"

definition shouldRun :: "GlobalContext \<Rightarrow> bool" where
  "shouldRun g = (Admin g \<or> GetRunMode g = DevelRunMode \<or> RunningInCI g)"

text \<open>
  The validation loop of \<open>parseServiceConfigs\<close>: \<open>res\<close> and the log grow by
  \<open>append\<close>; a record that fails validation is logged and skipped.
\<close>

fun validate_loop ::
  "('c, 'g, 'b) Package \<Rightarrow> 'c list \<Rightarrow> 'g list \<Rightarrow> LogMsg list \<Rightarrow> 'g list \<times> LogMsg list" where
  "validate_loop X [] res lg = (res, lg)"
| "validate_loop X (config # rest) res lg =
     (case NewGenericSocialProofConfig X config of
        Inl err \<Rightarrow> validate_loop X rest res (lg @ [UnableToValidate (DisplayName X config) err])
      | Inr validConf \<Rightarrow> validate_loop X rest (res @ [validConf]) lg)"

definition parseServiceConfigs ::
  "('c, 'g, 'b) Package \<Rightarrow> MerkleStoreEntry \<Rightarrow> World \<Rightarrow> (error + 'g list) \<times> World" where
  "parseServiceConfigs X entry w =
     (case Unmarshal X (Entry entry) of
        Inl err \<Rightarrow> (Inl err, w)
      | Inr services \<Rightarrow>
          (case validate_loop X services [] (debug_log w) of
             (res, lg) \<Rightarrow> (Inr res, w\<lparr>debug_log := lg\<rparr>)))"

definition loadParamProofServices ::
  "('c, 'g, 'b) Package \<Rightarrow> GlobalContext \<Rightarrow> 'b proofServices \<Rightarrow> World \<Rightarrow> 'b proofServices \<times> World" where
  "loadParamProofServices X g p w =
     (if \<not> shouldRun g then (p, w)
      else
        (case GetLatestEntry g (fetches w) of
           Inl err \<Rightarrow>
             (p, w\<lparr>fetches := Suc (fetches w), debug_log := debug_log w @ [UnableToLoad err]\<rparr>)
         | Inr entry \<Rightarrow>
             (case parseServiceConfigs X entry (w\<lparr>fetches := Suc (fetches w)\<rparr>) of
                (Inl err, w') \<Rightarrow> (p, w'\<lparr>debug_log := debug_log w' @ [UnableToParse err]\<rparr>)
              | (Inr serviceConfigs, w') \<Rightarrow>
                  (proofServices_register X
                     (map (NewGenericSocialProofServiceType X) serviceConfigs) p, w'))))"

definition GetServiceType ::
  "('c, 'g, 'b) Package \<Rightarrow> GlobalContext \<Rightarrow> string \<Rightarrow> 'b proofServices \<Rightarrow> World
     \<Rightarrow> 'b ServiceType option \<times> 'b proofServices \<times> World" where
  "GetServiceType X g s p w =
     (case loadParamProofServices X g p w of
        (p', w') \<Rightarrow> (fmlookup (collection p') (ToLower X s), p', w'))"

definition ListProofCheckers ::
  "('c, 'g, 'b) Package \<Rightarrow> GlobalContext \<Rightarrow> 'b proofServices \<Rightarrow> World
     \<Rightarrow> string fset \<times> 'b proofServices \<times> World" where
  "ListProofCheckers X g p w =
     (case loadParamProofServices X g p w of
        (p', w') \<Rightarrow> (fmdom (collection p'), p', w'))"

subsection \<open>A session: calls one after the other\<close>

datatype Call = CallGetServiceType string | CallListProofCheckers

fun call :: "('c, 'g, 'b) Package \<Rightarrow> GlobalContext \<Rightarrow> Call \<Rightarrow> 'b proofServices \<times> World
    \<Rightarrow> 'b proofServices \<times> World" where
  "call X g (CallGetServiceType s) (p, w) = snd (GetServiceType X g s p w)"
| "call X g CallListProofCheckers (p, w) = snd (ListProofCheckers X g p w)"

text \<open>
  Each call of a session comes with the global context as it is when the call is made,
  so the policy and the store may change between calls.
\<close>

fun session :: "('c, 'g, 'b) Package \<Rightarrow> (GlobalContext \<times> Call) list \<Rightarrow> 'b proofServices \<times> World
    \<Rightarrow> 'b proofServices \<times> World" where
  "session X [] s = s"
| "session X ((g, c) # cs) s = session X cs (call X g c s)"

subsection \<open>Concrete collaborators for evaluation\<close>

text \<open>
  \<open>strings.ToLower\<close> on a string of ASCII bytes: the letters \<open>A\<close> to \<open>Z\<close> move to
  \<open>a\<close> to \<open>z\<close>, every other byte stays. It stands in for the library function
  where a property is evaluated at a concrete ASCII key.
\<close>

definition asciiLower :: "char \<Rightarrow> char" where
  "asciiLower c =
     (if (65::nat) \<le> of_char c \<and> of_char c \<le> (90::nat) then char_of (of_char c + (32::nat)) else c)"

definition asciiToLower :: "string \<Rightarrow> string" where
  "asciiToLower s = map asciiLower s"

text \<open>
  A concrete package for evaluation. A decoded config record says by itself whether it
  validates, which keys its descriptor answers to and whether that descriptor is
  development-only; the payload \<open>services\<close> decodes to the given records and every
  other payload fails to decode.
\<close>

record DemoConfig =
  cfg_name :: string
  cfg_keys :: "string list"
  cfg_devel :: bool
  cfg_valid :: bool

definition demo_pkg :: "bool \<Rightarrow> string ServiceType list \<Rightarrow> DemoConfig list \<Rightarrow> (DemoConfig, DemoConfig, string) Package" where
  "demo_pkg develFlag builtins services =
     \<lparr>useDevelProofCheckers = develFlag,
      getStaticProofServices = builtins,
      ToLower = asciiToLower,
      Unmarshal = (\<lambda>b. if b = ''services'' then Inr services else Inl ''unexpected end of JSON input''),
      DisplayName = cfg_name,
      NewGenericSocialProofConfig = (\<lambda>c. if cfg_valid c then Inr c else Inl ''invalid config''),
      NewGenericSocialProofServiceType =
        (\<lambda>v. \<lparr>AllStringKeys = cfg_keys v, IsDevelOnly = cfg_devel v, impl = cfg_name v\<rparr>)\<rparr>"

definition demo_ctx :: "bool \<Rightarrow> (error + MerkleStoreEntry) \<Rightarrow> GlobalContext" where
  "demo_ctx ci answer =
     \<lparr>Admin = False, GetRunMode = OtherRunMode ''prod'', RunningInCI = ci,
       GetLatestEntry = (\<lambda>n. answer)\<rparr>"

definition demo_world :: World where
  "demo_world = \<lparr>fetches = 0, debug_log = []\<rparr>"

definition demo_builtin :: "string ServiceType" where
  "demo_builtin = \<lparr>AllStringKeys = [''x''], IsDevelOnly = False, impl = ''static''\<rparr>"

definition demo_bad :: "string \<Rightarrow> DemoConfig" where
  "demo_bad n = \<lparr>cfg_name = n, cfg_keys = [n], cfg_devel = False, cfg_valid = False\<rparr>"

definition demo_static :: "string list \<Rightarrow> bool \<Rightarrow> string ServiceType" where
  "demo_static ks d = \<lparr>AllStringKeys = ks, IsDevelOnly = d, impl = ''static''\<rparr>"

definition demo_remote :: "string list \<Rightarrow> bool \<Rightarrow> DemoConfig" where
  "demo_remote ks d = \<lparr>cfg_name = ''remote'', cfg_keys = ks, cfg_devel = d, cfg_valid = True\<rparr>"

subsection \<open>The validated records of a batch\<close>

text \<open>
  The records of a decoded batch that pass \<open>NewGenericSocialProofConfig\<close>, each with
  the value the constructor returns for it, in the order of the batch. This is the list
  the claims call the validated records; \<open>validate_loop_fst\<close> below shows that the
  loop of \<open>parseServiceConfigs\<close> computes it. \<open>projr\<close> is applied to \<open>Inr\<close> values only.
\<close>

definition validated :: "('c, 'g, 'b) Package \<Rightarrow> 'c list \<Rightarrow> 'g list" where
  "validated X cfgs =
     map (\<lambda>c. projr (NewGenericSocialProofConfig X c))
       (filter (\<lambda>c. \<not> isl (NewGenericSocialProofConfig X c)) cfgs)"

subsection \<open>What a refresh step registers under a key\<close>


section \<open>Facts about the loops\<close>

subsection \<open>Registration\<close>

lemma store_keys_lookup:
  "fmlookup (store_keys st ks c) k = (if k \<in> set ks then Some st else fmlookup c k)"
  by (induction ks arbitrary: c) auto

lemma store_keys_dom:
  "fmdom (store_keys st ks c) = fmdom c |\<union>| fset_of_list ks"
  by (induction ks arbitrary: c) auto

lemma register_loop_append:
  "register_loop devel (xs @ ys) c = register_loop devel ys (register_loop devel xs c)"
  by (induction xs arbitrary: c) auto

lemma register_loop_dom:
  "fset (fmdom (register_loop devel services c)) =
     fset (fmdom c) \<union> {k. \<exists>st \<in> set services. (devel \<or> \<not> IsDevelOnly st) \<and> k \<in> set (AllStringKeys st)}"
  by (induction services arbitrary: c) (auto simp: store_keys_dom fset_of_list.rep_eq)


lemma register_loop_miss:
  "\<forall>st \<in> set services. (devel \<or> \<not> IsDevelOnly st) \<longrightarrow> k \<notin> set (AllStringKeys st)
     \<Longrightarrow> fmlookup (register_loop devel services c) k = fmlookup c k"
  by (induction services arbitrary: c) (auto simp: store_keys_lookup)

lemma register_loop_last:
  assumes "devel \<or> \<not> IsDevelOnly st" and "k \<in> set (AllStringKeys st)"
    and "\<forall>st' \<in> set post. (devel \<or> \<not> IsDevelOnly st') \<longrightarrow> k \<notin> set (AllStringKeys st')"
  shows "fmlookup (register_loop devel (pre @ st # post) c) k = Some st"
proof -
  have "fmlookup (register_loop devel (st # post) (register_loop devel pre c)) k = Some st"
    using assms by (auto simp: register_loop_miss store_keys_lookup)
  then show ?thesis by (simp add: register_loop_append)
qed

lemma register_loop_hit:
  assumes "\<exists>st \<in> set services. (devel \<or> \<not> IsDevelOnly st) \<and> k \<in> set (AllStringKeys st)"
  shows "\<exists>st \<in> set services. (devel \<or> \<not> IsDevelOnly st) \<and> k \<in> set (AllStringKeys st)
           \<and> fmlookup (register_loop devel services c) k = Some st"
proof -
  from split_list_last_prop [OF assms]
  obtain pre st post where parts: "services = pre @ st # post"
    and kept: "(devel \<or> \<not> IsDevelOnly st) \<and> k \<in> set (AllStringKeys st)"
    and last: "\<forall>z \<in> set post. \<not> ((devel \<or> \<not> IsDevelOnly z) \<and> k \<in> set (AllStringKeys z))"
    by blast
  from last have "\<forall>st' \<in> set post. (devel \<or> \<not> IsDevelOnly st') \<longrightarrow> k \<notin> set (AllStringKeys st')"
    by blast
  with kept have "fmlookup (register_loop devel (pre @ st # post) c) k = Some st"
    by (intro register_loop_last) simp_all
  with parts kept show ?thesis by auto
qed

lemma register_loop_value:
  "fmlookup (register_loop devel services c) k = Some st \<Longrightarrow>
     fmlookup c k = Some st \<or> (st \<in> set services \<and> (devel \<or> \<not> IsDevelOnly st) \<and> k \<in> set (AllStringKeys st))"
proof (induction services arbitrary: c)
  case Nil
  then show ?case by simp
next
  case (Cons a services)
  show ?case
  proof (cases "\<not> devel \<and> IsDevelOnly a")
    case True
    with Cons.prems have "fmlookup (register_loop devel services c) k = Some st" by simp
    from Cons.IH [OF this] show ?thesis by auto
  next
    case False
    with Cons.prems
    have "fmlookup (register_loop devel services (store_keys a (AllStringKeys a) c)) k = Some st"
      by simp
    from Cons.IH [OF this] False show ?thesis
      by (auto simp: store_keys_lookup split: if_splits)
  qed
qed



subsection \<open>Validation\<close>

lemma validate_loop_all_invalid:
  "\<forall>c \<in> set cfgs. isl (NewGenericSocialProofConfig X c) \<Longrightarrow>
     validate_loop X cfgs res lg =
       (res, lg @ map (\<lambda>c. UnableToValidate (DisplayName X c) (projl (NewGenericSocialProofConfig X c))) cfgs)"
  by (induction cfgs arbitrary: lg) (auto split: sum.splits)

lemma validate_loop_set:
  "set (fst (validate_loop X cfgs res lg)) =
     set res \<union> {v. \<exists>c \<in> set cfgs. NewGenericSocialProofConfig X c = Inr v}"
  by (induction cfgs arbitrary: res lg) (auto split: sum.splits)

lemma validate_loop_fst:
  "fst (validate_loop X cfgs res lg) = res @ validated X cfgs"
  by (induction cfgs arbitrary: res lg) (auto simp: validated_def split: sum.splits)

lemma validated_set:
  "set (validated X cfgs) = {v. \<exists>c \<in> set cfgs. NewGenericSocialProofConfig X c = Inr v}"
  using validate_loop_set [of X cfgs "[]" "[]"] by (simp add: validate_loop_fst)

lemma validated_length: "length (validated X cfgs) \<le> length cfgs"
  by (simp add: validated_def)

lemma validated_append: "validated X (xs @ ys) = validated X xs @ validated X ys"
  by (simp add: validated_def)

lemma validated_Cons_valid:
  "NewGenericSocialProofConfig X c = Inr v \<Longrightarrow> validated X (c # cs) = v # validated X cs"
  by (simp add: validated_def)

lemma parse_decoded:
  "Unmarshal X (Entry entry) = Inr cfgs \<Longrightarrow>
     fst (parseServiceConfigs X entry w) = Inr (validated X cfgs)"
  using validate_loop_fst [of X cfgs "[]" "debug_log w"]
  by (auto simp: parseServiceConfigs_def split: prod.splits)

subsection \<open>The refresh step\<close>

lemma GetServiceType_eq:
  "GetServiceType X g s p w =
     (fmlookup (collection (fst (loadParamProofServices X g p w))) (ToLower X s),
      loadParamProofServices X g p w)"
  by (simp add: GetServiceType_def split: prod.splits)

lemma ListProofCheckers_eq:
  "ListProofCheckers X g p w =
     (fmdom (collection (fst (loadParamProofServices X g p w))), loadParamProofServices X g p w)"
  by (simp add: ListProofCheckers_def split: prod.splits)

lemma load_policy_off:
  "\<not> shouldRun g \<Longrightarrow> loadParamProofServices X g p w = (p, w)"
  by (simp add: loadParamProofServices_def)

lemma load_fetch_error:
  "shouldRun g \<Longrightarrow> GetLatestEntry g (fetches w) = Inl e \<Longrightarrow>
     loadParamProofServices X g p w =
       (p, w\<lparr>fetches := Suc (fetches w), debug_log := debug_log w @ [UnableToLoad e]\<rparr>)"
  by (simp add: loadParamProofServices_def)

lemma load_decode_error:
  "shouldRun g \<Longrightarrow> GetLatestEntry g (fetches w) = Inr entry \<Longrightarrow> Unmarshal X (Entry entry) = Inl e \<Longrightarrow>
     loadParamProofServices X g p w =
       (p, w\<lparr>fetches := Suc (fetches w), debug_log := debug_log w @ [UnableToParse e]\<rparr>)"
  by (simp add: loadParamProofServices_def parseServiceConfigs_def)

lemma load_decoded:
  "shouldRun g \<Longrightarrow> GetLatestEntry g (fetches w) = Inr entry \<Longrightarrow> Unmarshal X (Entry entry) = Inr cfgs \<Longrightarrow>
     loadParamProofServices X g p w =
       (p\<lparr>collection := register_loop (useDevelProofCheckers X)
             (map (NewGenericSocialProofServiceType X) (fst (validate_loop X cfgs [] (debug_log w))))
             (collection p)\<rparr>,
        w\<lparr>fetches := Suc (fetches w), debug_log := snd (validate_loop X cfgs [] (debug_log w))\<rparr>)"
  by (simp add: loadParamProofServices_def parseServiceConfigs_def proofServices_register_def
      split: prod.splits)

lemma load_collection:
  assumes "shouldRun g" and "GetLatestEntry g (fetches w) = Inr entry"
    and "Unmarshal X (Entry entry) = Inr cfgs"
  shows "collection (fst (loadParamProofServices X g p w)) =
     register_loop (useDevelProofCheckers X)
       (map (NewGenericSocialProofServiceType X) (validated X cfgs)) (collection p)"
  using assms by (simp add: load_decoded validate_loop_fst)

lemma load_fetches:
  "fetches (snd (loadParamProofServices X g p w)) = fetches w + (if shouldRun g then 1 else 0)"
  by (simp add: loadParamProofServices_def parseServiceConfigs_def split: sum.splits prod.splits)

lemma load_loaded:
  "loaded (fst (loadParamProofServices X g p w)) = loaded p"
  by (simp add: loadParamProofServices_def parseServiceConfigs_def proofServices_register_def
      split: sum.splits prod.splits)





subsection \<open>Sessions\<close>

lemma call_fetches:
  "fetches (snd (call X g c s)) = fetches (snd s) + (if shouldRun g then 1 else 0)"
proof (cases s)
  case (Pair p w)
  show ?thesis
    using load_fetches [of X g p w] Pair
    by (cases c) (simp_all add: GetServiceType_eq ListProofCheckers_eq)
qed

lemma session_fetches:
  "fetches (snd (session X cs s)) = fetches (snd s) + length (filter (\<lambda>(g, c). shouldRun g) cs)"
  by (induction X cs s rule: session.induct) (simp_all add: call_fetches)

lemma shouldRun_filter:
  "filter (\<lambda>(g, c). Admin g \<or> GetRunMode g = DevelRunMode \<or> RunningInCI g) cs
     = filter (\<lambda>(g, c). shouldRun g) cs"
  by (simp add: shouldRun_def)

lemma call_loaded: "loaded (fst (call X g c s)) = loaded (fst s)"
proof (cases s)
  case (Pair p w)
  then show ?thesis
    by (cases c) (simp_all add: GetServiceType_eq ListProofCheckers_eq load_loaded)
qed

lemma session_loaded: "loaded (fst (session X cs s)) = loaded (fst s)"
  by (induction X cs s rule: session.induct) (simp_all add: call_loaded)

subsection \<open>The concrete collaborators\<close>

lemma asciiToLower_GitHub: "asciiToLower ''GitHub'' = ''github''"
  by (simp add: asciiToLower_def asciiLower_def char_of_eq_iff)


lemma asciiToLower_x: "asciiToLower ''x'' = ''x''"
  by (simp add: asciiToLower_def asciiLower_def)





section \<open>The claims\<close>

subsection \<open>C1: the keys after a refresh\<close>

text \<open>
  \<^bold>\<open>C1\<close>, as the code has it. When the refresh step runs, the fetch succeeds and the
  payload decodes to the records \<open>cfgs\<close>, \<open>ListProofCheckers\<close> returns the keys
  present before, together with the alias keys of those validated records whose
  descriptor \<open>register\<close> does not skip: the descriptor is not development-only, or
  \<open>useDevelProofCheckers\<close> is set. A record that fails validation contributes no key
  and does not stop the others: \<open>parseServiceConfigs\<close> returns all the validated
  records, \<open>N \<le> M\<close> of them.
\<close>

theorem refresh_adds_registered_keys:
  assumes "shouldRun g" and "GetLatestEntry g (fetches w) = Inr entry"
    and "Unmarshal X (Entry entry) = Inr cfgs"
  shows "fset (fst (ListProofCheckers X g p w)) =
           fset (fmdom (collection p))
           \<union> {k. \<exists>c \<in> set cfgs. \<exists>v. NewGenericSocialProofConfig X c = Inr v
                  \<and> (useDevelProofCheckers X \<or> \<not> IsDevelOnly (NewGenericSocialProofServiceType X v))
                  \<and> k \<in> set (AllStringKeys (NewGenericSocialProofServiceType X v))}
       \<and> fst (parseServiceConfigs X entry w) = Inr (validated X cfgs)
       \<and> length (validated X cfgs) \<le> length cfgs"
proof (intro conjI)
  have "fset (fst (ListProofCheckers X g p w)) =
      fset (fmdom (collection p))
      \<union> {k. \<exists>st \<in> set (map (NewGenericSocialProofServiceType X) (validated X cfgs)).
              (useDevelProofCheckers X \<or> \<not> IsDevelOnly st) \<and> k \<in> set (AllStringKeys st)}"
    by (simp only: ListProofCheckers_eq fst_conv load_collection [OF assms] register_loop_dom)
  also have "{k. \<exists>st \<in> set (map (NewGenericSocialProofServiceType X) (validated X cfgs)).
              (useDevelProofCheckers X \<or> \<not> IsDevelOnly st) \<and> k \<in> set (AllStringKeys st)}
      = {k. \<exists>c \<in> set cfgs. \<exists>v. NewGenericSocialProofConfig X c = Inr v
                  \<and> (useDevelProofCheckers X \<or> \<not> IsDevelOnly (NewGenericSocialProofServiceType X v))
                  \<and> k \<in> set (AllStringKeys (NewGenericSocialProofServiceType X v))}"
    by (auto simp: validated_set)
  finally show "fset (fst (ListProofCheckers X g p w)) =
           fset (fmdom (collection p))
           \<union> {k. \<exists>c \<in> set cfgs. \<exists>v. NewGenericSocialProofConfig X c = Inr v
                  \<and> (useDevelProofCheckers X \<or> \<not> IsDevelOnly (NewGenericSocialProofServiceType X v))
                  \<and> k \<in> set (AllStringKeys (NewGenericSocialProofServiceType X v))}" .
  show "fst (parseServiceConfigs X entry w) = Inr (validated X cfgs)"
    using assms(3) by (rule parse_decoded)
  show "length (validated X cfgs) \<le> length cfgs"
    by (rule validated_length)
qed

text \<open>
  A batch of three: one record is rejected, one validates with the keys \<open>x\<close> and
  \<open>y\<close>, one validates to a development-only descriptor with the key \<open>z\<close>.
\<close>

theorem refresh_adds_registered_keys_witness:
  "shouldRun (demo_ctx True (Inr \<lparr>Entry = ''services''\<rparr>))
   \<and> fset (fst (ListProofCheckers
        (demo_pkg False [demo_builtin] [demo_bad ''w'', demo_remote [''x'', ''y''] False, demo_remote [''z''] True])
        (demo_ctx True (Inr \<lparr>Entry = ''services''\<rparr>))
        (newProofServices
          (demo_pkg False [demo_builtin] [demo_bad ''w'', demo_remote [''x'', ''y''] False, demo_remote [''z''] True]))
        demo_world))
      = {''x'', ''y''}"
  using refresh_adds_registered_keys
    [of "demo_ctx True (Inr \<lparr>Entry = ''services''\<rparr>)" demo_world "\<lparr>Entry = ''services''\<rparr>"
        "demo_pkg False [demo_builtin] [demo_bad ''w'', demo_remote [''x'', ''y''] False, demo_remote [''z''] True]"
        "[demo_bad ''w'', demo_remote [''x'', ''y''] False, demo_remote [''z''] True]"
        "newProofServices
          (demo_pkg False [demo_builtin] [demo_bad ''w'', demo_remote [''x'', ''y''] False, demo_remote [''z''] True])"]
  by (auto simp: demo_pkg_def demo_ctx_def demo_world_def demo_bad_def demo_remote_def demo_builtin_def
      shouldRun_def newProofServices_def proofServices_register_def)

text \<open>
  The claim without the guard of \<open>register\<close> fails: one record of one validates, its
  descriptor answers to \<open>y\<close> and is development-only, \<open>useDevelProofCheckers\<close> is
  false, and after the refresh \<open>y\<close> is not listed.
\<close>

theorem validated_devel_only_key_not_listed:
  "fst (parseServiceConfigs (demo_pkg False [demo_builtin] [demo_remote [''y''] True])
        \<lparr>Entry = ''services''\<rparr> demo_world) = Inr [demo_remote [''y''] True]
   \<and> AllStringKeys (NewGenericSocialProofServiceType
        (demo_pkg False [demo_builtin] [demo_remote [''y''] True]) (demo_remote [''y''] True)) = [''y'']
   \<and> fst (ListProofCheckers (demo_pkg False [demo_builtin] [demo_remote [''y''] True])
        (demo_ctx True (Inr \<lparr>Entry = ''services''\<rparr>))
        (newProofServices (demo_pkg False [demo_builtin] [demo_remote [''y''] True])) demo_world)
      = {|''x''|}"
  by (simp add: demo_pkg_def demo_ctx_def demo_world_def demo_remote_def demo_builtin_def
      shouldRun_def newProofServices_def proofServices_register_def ListProofCheckers_def
      loadParamProofServices_def parseServiceConfigs_def)

subsection \<open>C2: a failed refresh\<close>

text \<open>
  \<^bold>\<open>C2.\<close> In every state of the registry, when the refresh step runs and fails, either
  because \<open>GetLatestEntry\<close> returns an error or because the payload does not
  unmarshal, \<open>GetServiceType\<close> and \<open>ListProofCheckers\<close> still answer, from the
  mapping as it was before the call, and they leave the registry as it was. Their
  results carry no error: a descriptor or \<open>nil\<close>, and a set of keys.
\<close>

theorem refresh_failure_keeps_state:
  assumes "shouldRun g"
    and "(\<exists>e. GetLatestEntry g (fetches w) = Inl e)
       \<or> (\<exists>entry e. GetLatestEntry g (fetches w) = Inr entry \<and> Unmarshal X (Entry entry) = Inl e)"
  shows "fst (GetServiceType X g s p w) = fmlookup (collection p) (ToLower X s)
       \<and> fst (snd (GetServiceType X g s p w)) = p
       \<and> fst (ListProofCheckers X g p w) = fmdom (collection p)
       \<and> fst (snd (ListProofCheckers X g p w)) = p"
proof -
  have "fst (loadParamProofServices X g p w) = p"
    using assms by (auto simp: load_fetch_error load_decode_error)
  then show ?thesis
    by (simp add: GetServiceType_eq ListProofCheckers_eq)
qed

text \<open>
  A failed fetch in CI: the builtin \<open>x\<close> is still found and listed.
\<close>

theorem refresh_failure_keeps_state_witness:
  "shouldRun (demo_ctx True (Inl ''offline''))
   \<and> GetLatestEntry (demo_ctx True (Inl ''offline'')) (fetches demo_world) = Inl ''offline''
   \<and> fst (GetServiceType (demo_pkg False [demo_builtin] []) (demo_ctx True (Inl ''offline'')) ''x''
        (newProofServices (demo_pkg False [demo_builtin] [])) demo_world) = Some demo_builtin
   \<and> fst (ListProofCheckers (demo_pkg False [demo_builtin] []) (demo_ctx True (Inl ''offline''))
        (newProofServices (demo_pkg False [demo_builtin] [])) demo_world) = {|''x''|}"
  using refresh_failure_keeps_state
    [of "demo_ctx True (Inl ''offline'')" demo_world "demo_pkg False [demo_builtin] []" "''x''"
        "newProofServices (demo_pkg False [demo_builtin] [])"]
  by (simp add: demo_pkg_def demo_ctx_def demo_builtin_def demo_world_def
      newProofServices_def proofServices_register_def shouldRun_def asciiToLower_x)

subsection \<open>C3: a remote descriptor replaces what was stored\<close>

text \<open>
  \<^bold>\<open>C3\<close>, as the code has it. Let the refresh step of a call \<open>GetServiceType(k)\<close>
  decode a batch in which a record validates to a descriptor that carries the alias
  \<open>k\<close> and that \<open>register\<close> does not skip, and let no later record of the batch
  validate to such a descriptor. If \<open>k\<close> is its own lower-case form, the call returns
  that descriptor, whatever the mapping held under \<open>k\<close> before: the remote descriptor
  replaces a builtin or an earlier remote one, and within the batch the last record wins.
\<close>

theorem remote_alias_overrides:
  assumes "shouldRun g" and "GetLatestEntry g (fetches w) = Inr entry"
    and "Unmarshal X (Entry entry) = Inr (pre @ c # post)"
    and "NewGenericSocialProofConfig X c = Inr v"
    and "useDevelProofCheckers X \<or> \<not> IsDevelOnly (NewGenericSocialProofServiceType X v)"
    and "k \<in> set (AllStringKeys (NewGenericSocialProofServiceType X v))"
    and "\<forall>c' \<in> set post. \<forall>v'. NewGenericSocialProofConfig X c' = Inr v' \<longrightarrow>
           (useDevelProofCheckers X \<or> \<not> IsDevelOnly (NewGenericSocialProofServiceType X v')) \<longrightarrow>
           k \<notin> set (AllStringKeys (NewGenericSocialProofServiceType X v'))"
    and "ToLower X k = k"
  shows "fst (GetServiceType X g k p w) = Some (NewGenericSocialProofServiceType X v)"
proof -
  let ?f = "NewGenericSocialProofServiceType X"
  have split: "map ?f (validated X (pre @ c # post)) =
      map ?f (validated X pre) @ ?f v # map ?f (validated X post)"
    using assms(4) by (simp add: validated_append validated_Cons_valid)
  have later: "\<forall>st' \<in> set (map ?f (validated X post)).
      (useDevelProofCheckers X \<or> \<not> IsDevelOnly st') \<longrightarrow> k \<notin> set (AllStringKeys st')"
    using assms(7) by (auto simp: validated_set)
  have "fmlookup (collection (fst (loadParamProofServices X g p w))) k = Some (?f v)"
    unfolding load_collection [OF assms(1,2,3)] split
    using assms(5,6) later by (rule register_loop_last)
  then show ?thesis
    by (simp add: GetServiceType_eq assms(8))
qed

text \<open>
  The builtin answers to \<open>x\<close>. Of the four records the first and the third validate
  to descriptors carrying \<open>x\<close>, the second is rejected and the fourth is
  development-only: the third is returned.
\<close>

theorem remote_alias_overrides_witness:
  "shouldRun (demo_ctx True (Inr \<lparr>Entry = ''services''\<rparr>))
   \<and> fmlookup (collection (newProofServices
        (demo_pkg False [demo_builtin]
          [demo_remote [''x''] False, demo_bad ''w'', demo_remote [''x'', ''y''] False, demo_remote [''x''] True])))
        ''x'' = Some demo_builtin
   \<and> fst (GetServiceType
        (demo_pkg False [demo_builtin]
          [demo_remote [''x''] False, demo_bad ''w'', demo_remote [''x'', ''y''] False, demo_remote [''x''] True])
        (demo_ctx True (Inr \<lparr>Entry = ''services''\<rparr>)) ''x''
        (newProofServices
          (demo_pkg False [demo_builtin]
            [demo_remote [''x''] False, demo_bad ''w'', demo_remote [''x'', ''y''] False, demo_remote [''x''] True]))
        demo_world)
      = Some \<lparr>AllStringKeys = [''x'', ''y''], IsDevelOnly = False, impl = ''remote''\<rparr>"
  using remote_alias_overrides
    [of "demo_ctx True (Inr \<lparr>Entry = ''services''\<rparr>)" demo_world "\<lparr>Entry = ''services''\<rparr>"
        "demo_pkg False [demo_builtin]
          [demo_remote [''x''] False, demo_bad ''w'', demo_remote [''x'', ''y''] False, demo_remote [''x''] True]"
        "[demo_remote [''x''] False, demo_bad ''w'']" "demo_remote [''x'', ''y''] False"
        "[demo_remote [''x''] True]" "demo_remote [''x'', ''y''] False" "''x''"
        "newProofServices
          (demo_pkg False [demo_builtin]
            [demo_remote [''x''] False, demo_bad ''w'', demo_remote [''x'', ''y''] False, demo_remote [''x''] True])"]
  by (simp add: demo_pkg_def demo_ctx_def demo_world_def demo_remote_def demo_bad_def demo_builtin_def
      shouldRun_def newProofServices_def proofServices_register_def asciiToLower_x)

text \<open>
  The claim fails for an alias that is not lower-case, and for a descriptor that
  \<open>register\<close> skips. The key \<open>GitHub\<close> is in the mapping and a validated record
  carries it, yet \<open>GetServiceType(GitHub)\<close> reads the key \<open>github\<close> and returns
  \<open>nil\<close>. And a validated development-only record carrying \<open>x\<close> leaves the builtin
  in place when \<open>useDevelProofCheckers\<close> is false.
\<close>

theorem remote_alias_not_returned:
  "''GitHub'' |\<in>| fmdom (collection (newProofServices
        (demo_pkg False [demo_static [''GitHub''] False] [demo_remote [''GitHub''] False])))
   \<and> fst (parseServiceConfigs (demo_pkg False [demo_static [''GitHub''] False] [demo_remote [''GitHub''] False])
        \<lparr>Entry = ''services''\<rparr> demo_world) = Inr [demo_remote [''GitHub''] False]
   \<and> fst (GetServiceType (demo_pkg False [demo_static [''GitHub''] False] [demo_remote [''GitHub''] False])
        (demo_ctx True (Inr \<lparr>Entry = ''services''\<rparr>)) ''GitHub''
        (newProofServices (demo_pkg False [demo_static [''GitHub''] False] [demo_remote [''GitHub''] False]))
        demo_world) = None
   \<and> fst (parseServiceConfigs (demo_pkg False [demo_builtin] [demo_remote [''x''] True])
        \<lparr>Entry = ''services''\<rparr> demo_world) = Inr [demo_remote [''x''] True]
   \<and> fst (GetServiceType (demo_pkg False [demo_builtin] [demo_remote [''x''] True])
        (demo_ctx True (Inr \<lparr>Entry = ''services''\<rparr>)) ''x''
        (newProofServices (demo_pkg False [demo_builtin] [demo_remote [''x''] True]))
        demo_world) = Some demo_builtin"
  by (simp add: demo_pkg_def demo_ctx_def demo_world_def demo_remote_def demo_static_def demo_builtin_def
      shouldRun_def newProofServices_def proofServices_register_def GetServiceType_def
      loadParamProofServices_def parseServiceConfigs_def asciiToLower_GitHub asciiToLower_x)

subsection \<open>C4: the refresh policy\<close>

text \<open>
  \<^bold>\<open>C4.\<close> One call of \<open>GetServiceType\<close> or \<open>ListProofCheckers\<close> calls
  \<open>GetLatestEntry\<close> once when the admin feature flag is set, the run mode is
  development or the process runs in CI, and not at all otherwise; when all three are
  false the call changes neither the registry nor anything outside it.
\<close>

theorem refresh_policy_gate:
  "fetches (snd (snd (GetServiceType X g s p w))) =
     fetches w + (if Admin g \<or> GetRunMode g = DevelRunMode \<or> RunningInCI g then 1 else 0)
   \<and> fetches (snd (snd (ListProofCheckers X g p w))) =
     fetches w + (if Admin g \<or> GetRunMode g = DevelRunMode \<or> RunningInCI g then 1 else 0)
   \<and> (\<not> Admin g \<and> GetRunMode g \<noteq> DevelRunMode \<and> \<not> RunningInCI g \<longrightarrow>
        snd (GetServiceType X g s p w) = (p, w) \<and> snd (ListProofCheckers X g p w) = (p, w))"
proof (intro conjI impI)
  show "fetches (snd (snd (GetServiceType X g s p w))) =
     fetches w + (if Admin g \<or> GetRunMode g = DevelRunMode \<or> RunningInCI g then 1 else 0)"
    using load_fetches [of X g p w]
    by (simp add: GetServiceType_eq shouldRun_def)
  show "fetches (snd (snd (ListProofCheckers X g p w))) =
     fetches w + (if Admin g \<or> GetRunMode g = DevelRunMode \<or> RunningInCI g then 1 else 0)"
    using load_fetches [of X g p w]
    by (simp add: ListProofCheckers_eq shouldRun_def)
next
  assume off: "\<not> Admin g \<and> GetRunMode g \<noteq> DevelRunMode \<and> \<not> RunningInCI g"
  then have "\<not> shouldRun g" by (simp add: shouldRun_def)
  then show "snd (GetServiceType X g s p w) = (p, w)"
    by (simp add: GetServiceType_eq load_policy_off)
  from \<open>\<not> shouldRun g\<close> show "snd (ListProofCheckers X g p w) = (p, w)"
    by (simp add: ListProofCheckers_eq load_policy_off)
qed

text \<open>
  With the three conditions false nothing is fetched although the store holds an entry;
  with CI detected the same call fetches once.
\<close>

theorem refresh_policy_gate_witness:
  "\<not> Admin (demo_ctx False (Inr \<lparr>Entry = ''services''\<rparr>))
   \<and> GetRunMode (demo_ctx False (Inr \<lparr>Entry = ''services''\<rparr>)) \<noteq> DevelRunMode
   \<and> \<not> RunningInCI (demo_ctx False (Inr \<lparr>Entry = ''services''\<rparr>))
   \<and> snd (GetServiceType (demo_pkg False [] []) (demo_ctx False (Inr \<lparr>Entry = ''services''\<rparr>)) ''x''
        (newProofServices (demo_pkg False [] [])) demo_world)
      = (newProofServices (demo_pkg False [] []), demo_world)
   \<and> fetches (snd (snd (GetServiceType (demo_pkg False [] []) (demo_ctx True (Inr \<lparr>Entry = ''services''\<rparr>)) ''x''
        (newProofServices (demo_pkg False [] [])) demo_world))) = 1"
  using refresh_policy_gate
    [of "demo_pkg False [] []" "demo_ctx False (Inr \<lparr>Entry = ''services''\<rparr>)" "''x''"
        "newProofServices (demo_pkg False [] [])" demo_world]
    refresh_policy_gate
    [of "demo_pkg False [] []" "demo_ctx True (Inr \<lparr>Entry = ''services''\<rparr>)" "''x''"
        "newProofServices (demo_pkg False [] [])" demo_world]
  by (simp add: demo_ctx_def demo_world_def)

subsection \<open>C5: keys and letter case\<close>




subsection \<open>C6: what a refresh registers\<close>

text \<open>
  \<^bold>\<open>C6\<close>, as the code has it. A refresh that decodes a batch hands the descriptors of
  all its validated records to \<open>register\<close>, and the mapping it leaves is the one
  builtin registration of those descriptors yields from the mapping before. Every alias
  of a validated descriptor that is not development-only, or of any validated
  descriptor when \<open>useDevelProofCheckers\<close> is set, is then a key, and its value is a
  validated descriptor of the batch that carries it. When \<open>useDevelProofCheckers\<close> is
  false a development-only descriptor is not registered: a key has it as value after the
  refresh only if it had before.
\<close>

theorem validated_descriptors_registered:
  assumes "shouldRun g" and "GetLatestEntry g (fetches w) = Inr entry"
    and "Unmarshal X (Entry entry) = Inr cfgs"
  shows "collection (fst (loadParamProofServices X g p w)) =
           static_collection (staticProofServices_register X
             (map (NewGenericSocialProofServiceType X) (validated X cfgs))
             \<lparr>static_collection = collection p\<rparr>)
       \<and> (\<forall>c \<in> set cfgs. \<forall>v k.
             NewGenericSocialProofConfig X c = Inr v
             \<and> (useDevelProofCheckers X \<or> \<not> IsDevelOnly (NewGenericSocialProofServiceType X v))
             \<and> k \<in> set (AllStringKeys (NewGenericSocialProofServiceType X v))
             \<longrightarrow> (\<exists>v' \<in> set (validated X cfgs).
                    fmlookup (collection (fst (loadParamProofServices X g p w))) k
                      = Some (NewGenericSocialProofServiceType X v')
                    \<and> k \<in> set (AllStringKeys (NewGenericSocialProofServiceType X v'))))
       \<and> (\<not> useDevelProofCheckers X \<longrightarrow>
            (\<forall>c \<in> set cfgs. \<forall>v k.
               NewGenericSocialProofConfig X c = Inr v
               \<and> IsDevelOnly (NewGenericSocialProofServiceType X v)
               \<and> fmlookup (collection (fst (loadParamProofServices X g p w))) k
                    = Some (NewGenericSocialProofServiceType X v)
               \<longrightarrow> fmlookup (collection p) k = Some (NewGenericSocialProofServiceType X v)))"
proof (intro conjI ballI allI impI)
  let ?sts = "map (NewGenericSocialProofServiceType X) (validated X cfgs)"
  let ?after = "collection (fst (loadParamProofServices X g p w))"
  have after: "?after = register_loop (useDevelProofCheckers X) ?sts (collection p)"
    using assms by (rule load_collection)
  show "?after = static_collection (staticProofServices_register X ?sts \<lparr>static_collection = collection p\<rparr>)"
    by (simp add: after staticProofServices_register_def)
  {
    fix c v k
    assume c: "c \<in> set cfgs"
      and h: "NewGenericSocialProofConfig X c = Inr v
             \<and> (useDevelProofCheckers X \<or> \<not> IsDevelOnly (NewGenericSocialProofServiceType X v))
             \<and> k \<in> set (AllStringKeys (NewGenericSocialProofServiceType X v))"
    from c h have "v \<in> set (validated X cfgs)"
      by (auto simp: validated_set)
    with h have "\<exists>st \<in> set ?sts. (useDevelProofCheckers X \<or> \<not> IsDevelOnly st) \<and> k \<in> set (AllStringKeys st)"
      by auto
    from register_loop_hit [OF this, of "collection p"]
    show "\<exists>v' \<in> set (validated X cfgs).
            fmlookup ?after k = Some (NewGenericSocialProofServiceType X v')
            \<and> k \<in> set (AllStringKeys (NewGenericSocialProofServiceType X v'))"
      by (auto simp: after)
  }
  {
    fix c v k
    assume off: "\<not> useDevelProofCheckers X"
      and h: "NewGenericSocialProofConfig X c = Inr v
               \<and> IsDevelOnly (NewGenericSocialProofServiceType X v)
               \<and> fmlookup ?after k = Some (NewGenericSocialProofServiceType X v)"
    from h have "fmlookup (register_loop (useDevelProofCheckers X) ?sts (collection p)) k
        = Some (NewGenericSocialProofServiceType X v)"
      by (simp add: after)
    from register_loop_value [OF this] off h
    show "fmlookup (collection p) k = Some (NewGenericSocialProofServiceType X v)"
      by auto
  }
qed

text \<open>
  Two validated records, the second development-only: the mapping gains \<open>y\<close> and
  nothing else.
\<close>

theorem validated_descriptors_registered_witness:
  "shouldRun (demo_ctx True (Inr \<lparr>Entry = ''services''\<rparr>))
   \<and> collection (fst (loadParamProofServices
        (demo_pkg False [demo_builtin] [demo_remote [''y''] False, demo_remote [''z''] True])
        (demo_ctx True (Inr \<lparr>Entry = ''services''\<rparr>))
        (newProofServices (demo_pkg False [demo_builtin] [demo_remote [''y''] False, demo_remote [''z''] True]))
        demo_world))
     = fmupd ''y'' \<lparr>AllStringKeys = [''y''], IsDevelOnly = False, impl = ''remote''\<rparr>
         (fmupd ''x'' demo_builtin fmempty)"
  using validated_descriptors_registered
    [of "demo_ctx True (Inr \<lparr>Entry = ''services''\<rparr>)" demo_world "\<lparr>Entry = ''services''\<rparr>"
        "demo_pkg False [demo_builtin] [demo_remote [''y''] False, demo_remote [''z''] True]"
        "[demo_remote [''y''] False, demo_remote [''z''] True]"
        "newProofServices (demo_pkg False [demo_builtin] [demo_remote [''y''] False, demo_remote [''z''] True])"]
  by (simp add: demo_pkg_def demo_ctx_def demo_world_def demo_remote_def demo_builtin_def
      shouldRun_def newProofServices_def proofServices_register_def staticProofServices_register_def
      validated_def)

text \<open>
  Registration does depend on a property of the descriptor. The only record validates,
  its descriptor is development-only, and the refresh leaves the registry as it was:
  \<open>z\<close> is not found.
\<close>

theorem validated_devel_only_descriptor_not_registered:
  "NewGenericSocialProofConfig (demo_pkg False [demo_builtin] [demo_remote [''z''] True])
      (demo_remote [''z''] True) = Inr (demo_remote [''z''] True)
   \<and> fst (snd (GetServiceType (demo_pkg False [demo_builtin] [demo_remote [''z''] True])
        (demo_ctx True (Inr \<lparr>Entry = ''services''\<rparr>)) ''z''
        (newProofServices (demo_pkg False [demo_builtin] [demo_remote [''z''] True])) demo_world))
      = newProofServices (demo_pkg False [demo_builtin] [demo_remote [''z''] True])
   \<and> fst (GetServiceType (demo_pkg False [demo_builtin] [demo_remote [''z''] True])
        (demo_ctx True (Inr \<lparr>Entry = ''services''\<rparr>)) ''z''
        (newProofServices (demo_pkg False [demo_builtin] [demo_remote [''z''] True])) demo_world)
      = None"
  by (simp add: demo_pkg_def demo_ctx_def demo_world_def demo_remote_def demo_builtin_def
      shouldRun_def newProofServices_def proofServices_register_def GetServiceType_def
      loadParamProofServices_def parseServiceConfigs_def asciiToLower_def asciiLower_def)

subsection \<open>C7: development-only builtins\<close>




subsection \<open>C8: no once-per-session guard\<close>

text \<open>
  \<^bold>\<open>C8.\<close> Nothing guards the refresh step against running again. After any session,
  on any starting state, the number of \<open>GetLatestEntry\<close> calls made is the number of
  calls of the session whose policy held; the next call fetches exactly once when its
  policy holds, whatever happened before; and the field \<open>loaded\<close> is never written.
\<close>

theorem every_eligible_call_fetches_once:
  "fetches (snd (session X cs (p, w))) =
     fetches w + length (filter (\<lambda>(g, c). Admin g \<or> GetRunMode g = DevelRunMode \<or> RunningInCI g) cs)
   \<and> fetches (snd (call X g c (session X cs (p, w)))) =
     fetches (snd (session X cs (p, w)))
       + (if Admin g \<or> GetRunMode g = DevelRunMode \<or> RunningInCI g then 1 else 0)
   \<and> loaded (fst (session X cs (p, w))) = loaded p"
proof (intro conjI)
  show "fetches (snd (session X cs (p, w))) =
     fetches w + length (filter (\<lambda>(g, c). Admin g \<or> GetRunMode g = DevelRunMode \<or> RunningInCI g) cs)"
    by (simp add: session_fetches shouldRun_filter)
  show "fetches (snd (call X g c (session X cs (p, w)))) =
     fetches (snd (session X cs (p, w)))
       + (if Admin g \<or> GetRunMode g = DevelRunMode \<or> RunningInCI g then 1 else 0)"
    by (simp add: call_fetches shouldRun_def)
  show "loaded (fst (session X cs (p, w))) = loaded p"
    by (simp add: session_loaded)
qed

text \<open>
  Four calls, three of them eligible, one failing at the fetch: three fetches.
\<close>

theorem every_eligible_call_fetches_once_witness:
  "fetches (snd (session (demo_pkg False [demo_builtin] [])
      [(demo_ctx True (Inl ''offline''), CallGetServiceType ''x''),
       (demo_ctx False (Inl ''offline''), CallListProofCheckers),
       (demo_ctx True (Inr \<lparr>Entry = ''services''\<rparr>), CallListProofCheckers),
       (demo_ctx True (Inr \<lparr>Entry = ''services''\<rparr>), CallGetServiceType ''x'')]
      (newProofServices (demo_pkg False [demo_builtin] []), demo_world))) = 3"
  using every_eligible_call_fetches_once
    [of "demo_pkg False [demo_builtin] []"
      "[(demo_ctx True (Inl ''offline''), CallGetServiceType ''x''),
       (demo_ctx False (Inl ''offline''), CallListProofCheckers),
       (demo_ctx True (Inr \<lparr>Entry = ''services''\<rparr>), CallListProofCheckers),
       (demo_ctx True (Inr \<lparr>Entry = ''services''\<rparr>), CallGetServiceType ''x'')]"
      "newProofServices (demo_pkg False [demo_builtin] [])" demo_world]
  by (simp add: demo_ctx_def demo_world_def)

subsection \<open>C9: an absent key\<close>

text \<open>
  \<^bold>\<open>C9.\<close> A lookup of a string whose lower-case form is not a key of the mapping
  returns \<open>nil\<close>. For the static registry the mapping is the one it holds; for
  \<open>proofServices\<close> it is the mapping the lookup reads, that is the one the call
  leaves after its refresh step, and the mapping before the call when the policy is
  off. Both functions are total and their result type has no error.
\<close>

theorem GetServiceType_absent_is_nil:
  "(ToLower X s |\<notin>| fmdom (static_collection sp) \<longrightarrow>
      staticProofServices_GetServiceType X sp s = None)
   \<and> (ToLower X s |\<notin>| fmdom (collection (fst (snd (GetServiceType X g s p w)))) \<longrightarrow>
      fst (GetServiceType X g s p w) = None)
   \<and> (\<not> shouldRun g \<and> ToLower X s |\<notin>| fmdom (collection p) \<longrightarrow>
      fst (GetServiceType X g s p w) = None)"
proof (intro conjI impI)
  assume "ToLower X s |\<notin>| fmdom (static_collection sp)"
  then show "staticProofServices_GetServiceType X sp s = None"
    by (simp add: staticProofServices_GetServiceType_def fmdom_notD)
next
  assume "ToLower X s |\<notin>| fmdom (collection (fst (snd (GetServiceType X g s p w))))"
  then show "fst (GetServiceType X g s p w) = None"
    by (simp add: GetServiceType_eq fmdom_notD)
next
  assume "\<not> shouldRun g \<and> ToLower X s |\<notin>| fmdom (collection p)"
  then show "fst (GetServiceType X g s p w) = None"
    by (simp add: GetServiceType_eq load_policy_off fmdom_notD)
qed

text \<open>
  \<open>GitHub\<close> is not a builtin key of the sample package.
\<close>

theorem GetServiceType_absent_is_nil_witness:
  "asciiToLower ''GitHub'' |\<notin>| fmdom (static_collection (newStaticProofServices (demo_pkg False [demo_builtin] [])))
   \<and> staticProofServices_GetServiceType (demo_pkg False [demo_builtin] [])
        (newStaticProofServices (demo_pkg False [demo_builtin] [])) ''GitHub'' = None
   \<and> \<not> shouldRun (demo_ctx False (Inl ''offline''))
   \<and> fst (GetServiceType (demo_pkg False [demo_builtin] []) (demo_ctx False (Inl ''offline'')) ''GitHub''
        (newProofServices (demo_pkg False [demo_builtin] [])) demo_world) = None"
  using GetServiceType_absent_is_nil
    [of "demo_pkg False [demo_builtin] []" "''GitHub''"
        "newStaticProofServices (demo_pkg False [demo_builtin] [])"
        "demo_ctx False (Inl ''offline'')"
        "newProofServices (demo_pkg False [demo_builtin] [])" demo_world]
  by (simp add: demo_pkg_def demo_ctx_def demo_builtin_def newStaticProofServices_def
      staticProofServices_register_def newProofServices_def proofServices_register_def
      shouldRun_def asciiToLower_GitHub)

subsection \<open>C10: a batch with no valid record\<close>

text \<open>
  \<^bold>\<open>C10.\<close> When the payload decodes and every record fails validation,
  \<open>parseServiceConfigs\<close> returns the empty list and no error. A refresh that fetches
  such a payload leaves the registry as it was, logs one validation message per record
  and no decode failure, and \<open>GetServiceType\<close> and \<open>ListProofCheckers\<close> answer
  what they answer when the payload decodes to no record at all.
\<close>

theorem all_invalid_batch_is_empty_batch:
  assumes "Unmarshal X (Entry entry) = Inr cfgs"
    and "\<forall>c \<in> set cfgs. isl (NewGenericSocialProofConfig X c)"
  shows "fst (parseServiceConfigs X entry w) = Inr []
   \<and> (shouldRun g \<and> GetLatestEntry g (fetches w) = Inr entry \<longrightarrow>
        fst (loadParamProofServices X g p w) = p
        \<and> debug_log (snd (loadParamProofServices X g p w)) =
            debug_log w @ map (\<lambda>c. UnableToValidate (DisplayName X c)
                                  (projl (NewGenericSocialProofConfig X c))) cfgs
        \<and> fst (GetServiceType X g s p w) = fmlookup (collection p) (ToLower X s)
        \<and> fst (GetServiceType X g s p w) = fst (GetServiceType (X\<lparr>Unmarshal := \<lambda>b. Inr []\<rparr>) g s p w)
        \<and> fst (ListProofCheckers X g p w) = fst (ListProofCheckers (X\<lparr>Unmarshal := \<lambda>b. Inr []\<rparr>) g p w)
        \<and> fst (snd (GetServiceType X g s p w)) = fst (snd (GetServiceType (X\<lparr>Unmarshal := \<lambda>b. Inr []\<rparr>) g s p w))
        \<and> fst (snd (ListProofCheckers X g p w)) = fst (snd (ListProofCheckers (X\<lparr>Unmarshal := \<lambda>b. Inr []\<rparr>) g p w)))"
proof (intro conjI impI)
  have loop: "validate_loop X cfgs [] lg =
      ([], lg @ map (\<lambda>c. UnableToValidate (DisplayName X c) (projl (NewGenericSocialProofConfig X c))) cfgs)"
    for lg
    using assms(2) by (rule validate_loop_all_invalid)
  show "fst (parseServiceConfigs X entry w) = Inr []"
    using assms(1) by (simp add: parseServiceConfigs_def loop)
  assume run: "shouldRun g \<and> GetLatestEntry g (fetches w) = Inr entry"
  have full: "loadParamProofServices X g p w =
      (p, w\<lparr>fetches := Suc (fetches w),
            debug_log := debug_log w @ map (\<lambda>c. UnableToValidate (DisplayName X c)
                                  (projl (NewGenericSocialProofConfig X c))) cfgs\<rparr>)"
    using run assms(1) by (simp add: load_decoded loop)
  have "Unmarshal (X\<lparr>Unmarshal := \<lambda>b. Inr []\<rparr>) (Entry entry) = Inr []"
    by simp
  with run have empty: "fst (loadParamProofServices (X\<lparr>Unmarshal := \<lambda>b. Inr []\<rparr>) g p w) = p"
    by (simp add: load_decoded)
  show "fst (loadParamProofServices X g p w) = p"
    by (simp add: full)
  show "debug_log (snd (loadParamProofServices X g p w)) =
            debug_log w @ map (\<lambda>c. UnableToValidate (DisplayName X c)
                                  (projl (NewGenericSocialProofConfig X c))) cfgs"
    by (simp add: full)
  show "fst (GetServiceType X g s p w) = fmlookup (collection p) (ToLower X s)"
    by (simp add: GetServiceType_eq full)
  show "fst (GetServiceType X g s p w) = fst (GetServiceType (X\<lparr>Unmarshal := \<lambda>b. Inr []\<rparr>) g s p w)"
    by (simp add: GetServiceType_eq full empty)
  show "fst (ListProofCheckers X g p w) = fst (ListProofCheckers (X\<lparr>Unmarshal := \<lambda>b. Inr []\<rparr>) g p w)"
    by (simp add: ListProofCheckers_eq full empty)
  show "fst (snd (GetServiceType X g s p w)) = fst (snd (GetServiceType (X\<lparr>Unmarshal := \<lambda>b. Inr []\<rparr>) g s p w))"
    by (simp add: GetServiceType_eq full empty)
  show "fst (snd (ListProofCheckers X g p w)) = fst (snd (ListProofCheckers (X\<lparr>Unmarshal := \<lambda>b. Inr []\<rparr>) g p w))"
    by (simp add: ListProofCheckers_eq full empty)
qed

text \<open>
  Two records, both rejected: only the builtin key is listed.
\<close>

theorem all_invalid_batch_is_empty_batch_witness:
  "Unmarshal (demo_pkg False [demo_builtin] [demo_bad ''y'', demo_bad ''z'']) (Entry \<lparr>Entry = ''services''\<rparr>)
     = Inr [demo_bad ''y'', demo_bad ''z'']
   \<and> isl (NewGenericSocialProofConfig (demo_pkg False [demo_builtin] [demo_bad ''y'', demo_bad ''z''])
          (demo_bad ''y''))
   \<and> isl (NewGenericSocialProofConfig (demo_pkg False [demo_builtin] [demo_bad ''y'', demo_bad ''z''])
          (demo_bad ''z''))
   \<and> shouldRun (demo_ctx True (Inr \<lparr>Entry = ''services''\<rparr>))
   \<and> fst (parseServiceConfigs (demo_pkg False [demo_builtin] [demo_bad ''y'', demo_bad ''z''])
        \<lparr>Entry = ''services''\<rparr> demo_world) = Inr []
   \<and> fst (ListProofCheckers (demo_pkg False [demo_builtin] [demo_bad ''y'', demo_bad ''z''])
        (demo_ctx True (Inr \<lparr>Entry = ''services''\<rparr>))
        (newProofServices (demo_pkg False [demo_builtin] [demo_bad ''y'', demo_bad ''z''])) demo_world)
      = {|''x''|}"
  using all_invalid_batch_is_empty_batch
    [of "demo_pkg False [demo_builtin] [demo_bad ''y'', demo_bad ''z'']" "\<lparr>Entry = ''services''\<rparr>"
        "[demo_bad ''y'', demo_bad ''z'']" demo_world "demo_ctx True (Inr \<lparr>Entry = ''services''\<rparr>)"
        "newProofServices (demo_pkg False [demo_builtin] [demo_bad ''y'', demo_bad ''z''])" "''x''"]
  by (simp add: demo_pkg_def demo_ctx_def demo_world_def demo_bad_def demo_builtin_def shouldRun_def
      ListProofCheckers_eq newProofServices_def proofServices_register_def)

end
